theory Spec2Isabelle
  imports Complex_Main "HOL-Library.AList" "HOL-Library.Sublist"
begin

section \<open>Values of the workflow engine\<close>

text \<open>
  Node configurations, node results and the run's input are JSON data handled by
  JavaScript. Numbers are modelled as integers (the formatting and rounding of
  non-integral doubles is left out); an object is the list of its own properties in
  enumeration order.
\<close>

datatype jv =
    JUndef
  | JNull
  | JBool bool
  | JNum int
  | JStr string
  | JArr "jv list"
  | JObj "(string \<times> jv) list"

text \<open>Truthiness, as used by \<open>||\<close>, \<open>&&\<close>, \<open>!\<close> and \<open>?:\<close>.\<close>

fun truthy :: "jv \<Rightarrow> bool" where
  "truthy JUndef = False"
| "truthy JNull = False"
| "truthy (JBool b) = b"
| "truthy (JNum n) = (n \<noteq> 0)"
| "truthy (JStr s) = (s \<noteq> [])"
| "truthy (JArr xs) = True"
| "truthy (JObj kvs) = True"

definition jor :: "jv \<Rightarrow> jv \<Rightarrow> jv" where
  \<comment> \<open>\<open>a || b\<close>\<close>
  "jor a b = (if truthy a then a else b)"

definition isObject :: "jv \<Rightarrow> bool" where
  \<comment> \<open>\<open>typeof v === 'object'\<close>: objects, arrays and \<open>null\<close>\<close>
  "isObject v = (case v of JObj kvs \<Rightarrow> True | JArr xs \<Rightarrow> True | JNull \<Rightarrow> True | _ \<Rightarrow> False)"

definition isString :: "jv \<Rightarrow> bool" where
  "isString v = (case v of JStr s \<Rightarrow> True | _ \<Rightarrow> False)"

subsection \<open>Decimal numerals\<close>

definition digit_char :: "nat \<Rightarrow> char" where
  "digit_char d = ''0123456789'' ! (d mod 10)"

fun nat_to_string :: "nat \<Rightarrow> string" where
  "nat_to_string n = (if n < 10 then [digit_char n] else nat_to_string (n div 10) @ [digit_char n])"

declare nat_to_string.simps [simp del]



definition int_to_string :: "int \<Rightarrow> string" where
  "int_to_string i = (if i < 0 then CHR ''-'' # nat_to_string (nat (- i)) else nat_to_string (nat i))"

definition intercalate :: "'a list \<Rightarrow> 'a list list \<Rightarrow> 'a list" where
  \<comment> \<open>\<open>parts.join(sep)\<close>\<close>
  "intercalate sep parts = (case parts of [] \<Rightarrow> [] | p # ps \<Rightarrow> p @ concat (map (\<lambda>q. sep @ q) ps))"

subsection \<open>String coercion\<close>

text \<open>
  \<open>String(v)\<close>: an array joins the coercions of its elements with commas, \<open>null\<close> and
  \<open>undefined\<close> elements giving the empty string; a plain object gives
  \<open>[object Object]\<close>.
\<close>

fun toStr :: "jv \<Rightarrow> string" where
  "toStr JUndef = ''undefined''"
| "toStr JNull = ''null''"
| "toStr (JBool b) = (if b then ''true'' else ''false'')"
| "toStr (JNum n) = int_to_string n"
| "toStr (JStr s) = s"
| "toStr (JArr xs) =
     intercalate '','' (map (\<lambda>x. case x of JUndef \<Rightarrow> [] | JNull \<Rightarrow> [] | _ \<Rightarrow> toStr x) xs)"
| "toStr (JObj kvs) = ''[object Object]''"

subsection \<open>Numeric coercion\<close>

text \<open>
  \<open>Number(v)\<close>. A string is trimmed and read as a numeric literal: the empty string is
  0; otherwise an optional sign followed by \<open>Infinity\<close> or by decimal digits with an
  optional fraction and exponent, or an unsigned \<open>0x\<close>, \<open>0o\<close>, \<open>0b\<close> integer; anything
  else is \<open>NaN\<close>. Finite values are kept exact (rounding to a double is left out).
\<close>

datatype jsnum = NaN | NegInf | Fin rat | PosInf

definition isWhite :: "char \<Rightarrow> bool" where
  "isWhite c = (c \<in> set [CHR 0x09, CHR 0x0A, CHR 0x0B, CHR 0x0C, CHR 0x0D, CHR '' ''])"

definition trim :: "string \<Rightarrow> string" where
  \<comment> \<open>\<open>s.trim()\<close>\<close>
  "trim s = rev (dropWhile isWhite (rev (dropWhile isWhite s)))"

definition digit_val :: "char \<Rightarrow> nat option" where
  \<comment> \<open>the value of a hexadecimal digit\<close>
  "digit_val c =
     (let n = of_char c :: nat in
      if 48 \<le> n \<and> n \<le> 57 then Some (n - 48)
      else if 97 \<le> n \<and> n \<le> 102 then Some (n - 87)
      else if 65 \<le> n \<and> n \<le> 70 then Some (n - 55)
      else None)"

fun read_digits :: "nat \<Rightarrow> string \<Rightarrow> nat \<Rightarrow> nat option" where
  \<comment> \<open>all characters are digits of the radix; the accumulated value\<close>
  "read_digits radix [] acc = Some acc"
| "read_digits radix (c # cs) acc =
     (case digit_val c of
        None \<Rightarrow> None
      | Some d \<Rightarrow> if d < radix then read_digits radix cs (acc * radix + d) else None)"

definition isDigit :: "char \<Rightarrow> bool" where
  "isDigit c = (case digit_val c of Some d \<Rightarrow> d < 10 | None \<Rightarrow> False)"

definition read_exponent :: "string \<Rightarrow> int option" where
  \<comment> \<open>what follows the mantissa: nothing, or \<open>e\<close>/\<open>E\<close>, an optional sign and digits\<close>
  "read_exponent s =
     (case s of
        [] \<Rightarrow> Some 0
      | c # r \<Rightarrow>
          if c = CHR ''e'' \<or> c = CHR ''E'' then
            (let (neg, ds) = (case r of
                                [] \<Rightarrow> (False, r)
                              | d # r' \<Rightarrow> if d = CHR ''-'' then (True, r')
                                          else if d = CHR ''+'' then (False, r') else (False, r))
             in if ds = [] then None
                else (case read_digits 10 ds 0 of
                        None \<Rightarrow> None
                      | Some e \<Rightarrow> Some (if neg then - int e else int e)))
          else None)"

definition read_unsigned_decimal :: "string \<Rightarrow> jsnum" where
  "read_unsigned_decimal s =
     (if s = ''Infinity'' then PosInf
      else
        (let ip = takeWhile isDigit s;
             r1 = dropWhile isDigit s;
             (fp, r2) = (case r1 of
                           [] \<Rightarrow> ([], r1)
                         | c # r \<Rightarrow> if c = CHR ''.'' then (takeWhile isDigit r, dropWhile isDigit r)
                                    else ([], r1))
         in if ip = [] \<and> fp = [] then NaN
            else (case (read_digits 10 (ip @ fp) 0, read_exponent r2) of
                    (Some m, Some e) \<Rightarrow> Fin (of_nat m * 10 powi (e - int (length fp)))
                  | _ \<Rightarrow> NaN)))"

definition read_radix :: "nat \<Rightarrow> string \<Rightarrow> jsnum" where
  "read_radix radix ds =
     (if ds = [] then NaN
      else (case read_digits radix ds 0 of None \<Rightarrow> NaN | Some n \<Rightarrow> Fin (of_nat n)))"

fun jsnum_neg :: "jsnum \<Rightarrow> jsnum" where
  "jsnum_neg NaN = NaN"
| "jsnum_neg NegInf = PosInf"
| "jsnum_neg (Fin q) = Fin (- q)"
| "jsnum_neg PosInf = NegInf"

definition stringToNumber :: "string \<Rightarrow> jsnum" where
  "stringToNumber s0 =
     (let s = trim s0 in
      case s of
        [] \<Rightarrow> Fin 0
      | c # r \<Rightarrow>
          if c = CHR ''+'' then read_unsigned_decimal r
          else if c = CHR ''-'' then jsnum_neg (read_unsigned_decimal r)
          else if c = CHR ''0'' \<and> r \<noteq> [] \<and> hd r \<in> set ''xX'' then read_radix 16 (tl r)
          else if c = CHR ''0'' \<and> r \<noteq> [] \<and> hd r \<in> set ''oO'' then read_radix 8 (tl r)
          else if c = CHR ''0'' \<and> r \<noteq> [] \<and> hd r \<in> set ''bB'' then read_radix 2 (tl r)
          else read_unsigned_decimal s)"

fun toNumber :: "jv \<Rightarrow> jsnum" where
  "toNumber JUndef = NaN"
| "toNumber JNull = Fin 0"
| "toNumber (JBool b) = Fin (if b then 1 else 0)"
| "toNumber (JNum n) = Fin (of_int n)"
| "toNumber (JStr s) = stringToNumber s"
| "toNumber (JArr xs) = stringToNumber (toStr (JArr xs))"
| "toNumber (JObj kvs) = stringToNumber (toStr (JObj kvs))"

text \<open>The relational operators on numbers: every comparison with \<open>NaN\<close> is false.\<close>

fun num_lt :: "jsnum \<Rightarrow> jsnum \<Rightarrow> bool" where
  "num_lt NaN _ = False"
| "num_lt _ NaN = False"
| "num_lt NegInf b = (b \<noteq> NegInf)"
| "num_lt (Fin x) (Fin y) = (x < y)"
| "num_lt (Fin x) PosInf = True"
| "num_lt (Fin x) NegInf = False"
| "num_lt PosInf _ = False"

definition num_le :: "jsnum \<Rightarrow> jsnum \<Rightarrow> bool" where
  "num_le a b = (a \<noteq> NaN \<and> b \<noteq> NaN \<and> (a = b \<or> num_lt a b))"

subsection \<open>Strict equality and substring test\<close>

text \<open>
  \<open>a === b\<close> compares primitives by type and value and objects by identity. Where the
  engine compares two values they come from different places (two fields of a node's
  configuration; a recorded result and the run's input), so two objects or arrays met
  there are never the same object.
\<close>

fun strictEq :: "jv \<Rightarrow> jv \<Rightarrow> bool" where
  "strictEq JUndef JUndef = True"
| "strictEq JNull JNull = True"
| "strictEq (JBool a) (JBool b) = (a = b)"
| "strictEq (JNum a) (JNum b) = (a = b)"
| "strictEq (JStr a) (JStr b) = (a = b)"
| "strictEq _ _ = False"

fun str_includes :: "string \<Rightarrow> string \<Rightarrow> bool" where
  \<comment> \<open>\<open>s.includes(t)\<close>\<close>
  "str_includes [] t = (t = [])"
| "str_includes (c # s) t = (prefix t (c # s) \<or> str_includes s t)"

section \<open>Condition evaluator\<close>

definition evaluateCondition :: "jv \<Rightarrow> jv \<Rightarrow> string \<Rightarrow> bool" where
  "evaluateCondition val compareValue operator =
     (if operator = ''equals'' then strictEq val compareValue
      else if operator = ''notEquals'' then \<not> strictEq val compareValue
      else if operator = ''greaterThan'' then num_lt (toNumber compareValue) (toNumber val)
      else if operator = ''lessThan'' then num_lt (toNumber val) (toNumber compareValue)
      else if operator = ''greaterThanOrEqual'' then num_le (toNumber compareValue) (toNumber val)
      else if operator = ''lessThanOrEqual'' then num_le (toNumber val) (toNumber compareValue)
      else if operator = ''contains'' then str_includes (toStr val) (toStr compareValue)
      else False)"

section \<open>Objects, maps and JSON text\<close>

text \<open>
  \<open>p in v\<close> and \<open>v[p]\<close> for a value that is an object or an array, on its own
  properties: the keys of an object; the indices and \<open>length\<close> of an array. The
  properties that every object inherits from its prototype are left out.
\<close>

definition arrayIndexOf :: "nat \<Rightarrow> string \<Rightarrow> nat option" where
  \<comment> \<open>the index below \<open>n\<close> that the property name denotes\<close>
  "arrayIndexOf n p = List.find (\<lambda>i. nat_to_string i = p) [0..<n]"

definition hasProp :: "string \<Rightarrow> jv \<Rightarrow> bool" where
  "hasProp p v =
     (case v of
        JObj kvs \<Rightarrow> map_of kvs p \<noteq> None
      | JArr xs \<Rightarrow> p = ''length'' \<or> arrayIndexOf (length xs) p \<noteq> None
      | _ \<Rightarrow> False)"

definition getProp :: "jv \<Rightarrow> string \<Rightarrow> jv" where
  "getProp v p =
     (case v of
        JObj kvs \<Rightarrow> (case map_of kvs p of Some x \<Rightarrow> x | None \<Rightarrow> JUndef)
      | JArr xs \<Rightarrow>
          (if p = ''length'' then JNum (int (length xs))
           else (case arrayIndexOf (length xs) p of Some i \<Rightarrow> xs ! i | None \<Rightarrow> JUndef))
      | _ \<Rightarrow> JUndef)"

text \<open>
  Setting a property keeps the enumeration order of JavaScript objects: an existing key
  keeps its place; a new key that is an array index goes among the index keys in
  ascending order, before all other keys; any other new key goes last.
\<close>

definition indexKey :: "string \<Rightarrow> nat option" where
  "indexKey k =
     (if k \<noteq> [] \<and> list_all isDigit k \<and> (k = ''0'' \<or> hd k \<noteq> CHR ''0'') then
        (case read_digits 10 k 0 of
           Some n \<Rightarrow> if n < 4294967295 then Some n else None
         | None \<Rightarrow> None)
      else None)"

definition objSet :: "string \<Rightarrow> jv \<Rightarrow> (string \<times> jv) list \<Rightarrow> (string \<times> jv) list" where
  "objSet k v kvs =
     (if map_of kvs k \<noteq> None then AList.update k v kvs
      else (case indexKey k of
              None \<Rightarrow> kvs @ [(k, v)]
            | Some n \<Rightarrow>
                (let below = (\<lambda>kv. case indexKey (fst kv) of Some m \<Rightarrow> m < n | None \<Rightarrow> False)
                 in takeWhile below kvs @ [(k, v)] @ dropWhile below kvs)))"

definition fromEntries :: "(string \<times> jv) list \<Rightarrow> jv" where
  \<comment> \<open>\<open>Object.fromEntries(map)\<close>\<close>
  "fromEntries es = JObj (foldl (\<lambda>obj kv. objSet (fst kv) (snd kv) obj) [] es)"

text \<open>
  \<open>Map<string, unknown>\<close>: an association list in insertion order; \<open>set\<close> replaces the
  value of a present key in place and appends a new key; \<open>get\<close> of an absent key is
  \<open>undefined\<close>.
\<close>

type_synonym jmap = "(string \<times> jv) list"

definition mapGet :: "jmap \<Rightarrow> string \<Rightarrow> jv" where
  "mapGet m k = (case map_of m k of Some v \<Rightarrow> v | None \<Rightarrow> JUndef)"

definition mapSet :: "string \<Rightarrow> jv \<Rightarrow> jmap \<Rightarrow> jmap" where
  "mapSet k v m = AList.update k v m"

subsection \<open>JSON.stringify\<close>

definition hex_char :: "nat \<Rightarrow> char" where
  "hex_char d = ''0123456789abcdef'' ! (d mod 16)"

definition json_escape :: "char \<Rightarrow> string" where
  "json_escape c =
     (let n = of_char c :: nat in
      if c = CHR 0x22 then [CHR 0x5C, CHR 0x22]
      else if c = CHR 0x5C then [CHR 0x5C, CHR 0x5C]
      else if n = 8 then [CHR 0x5C, CHR ''b'']
      else if n = 9 then [CHR 0x5C, CHR ''t'']
      else if n = 10 then [CHR 0x5C, CHR ''n'']
      else if n = 12 then [CHR 0x5C, CHR ''f'']
      else if n = 13 then [CHR 0x5C, CHR ''r'']
      else if n < 32 then [CHR 0x5C, CHR ''u'', CHR ''0'', CHR ''0'', hex_char (n div 16), hex_char n]
      else [c])"

definition json_quote :: "string \<Rightarrow> string" where
  "json_quote s = [CHR 0x22] @ concat (map json_escape s) @ [CHR 0x22]"

text \<open>
  \<open>JSON.stringify(v)\<close> without indentation. A property whose value is \<open>undefined\<close> is
  left out of an object and written \<open>null\<close> in an array. The engine only calls it on
  values that are not \<open>undefined\<close>.
\<close>

fun json_stringify :: "jv \<Rightarrow> string" where
  "json_stringify JUndef = ''undefined''"
| "json_stringify JNull = ''null''"
| "json_stringify (JBool b) = (if b then ''true'' else ''false'')"
| "json_stringify (JNum n) = int_to_string n"
| "json_stringify (JStr s) = json_quote s"
| "json_stringify (JArr xs) =
     ''['' @ intercalate '','' (map (\<lambda>x. case x of JUndef \<Rightarrow> ''null'' | _ \<Rightarrow> json_stringify x) xs) @ '']''"
| "json_stringify (JObj kvs) =
     ''{'' @ intercalate '',''
              (map (\<lambda>kv. json_quote (fst kv) @ '':'' @ json_stringify (snd kv))
                   (filter (\<lambda>kv. snd kv \<noteq> JUndef) kvs)) @ ''}''"

section \<open>Template resolver\<close>

text \<open>
  \<open>template.replace(/\{\{([^}]+)\}\}/g, f)\<close>. At a position the expression matches
  when the text there is two opening braces, a non-empty longest run of characters other
  than a closing brace, and two closing braces; the run is the captured path. A match
  is replaced by what \<open>f\<close> returns for the matched text and the path, and the scan goes
  on after the match; where there is no match the character is kept.
\<close>

definition notClose :: "char \<Rightarrow> bool" where
  "notClose c = (c \<noteq> CHR ''}'')"

definition matchAt :: "string \<Rightarrow> (string \<times> string) option" where
  \<comment> \<open>the captured path and the text after the match\<close>
  "matchAt s =
     (case s of
        a # b # r \<Rightarrow>
          if a = CHR ''{'' \<and> b = CHR ''{'' then
            (let body = takeWhile notClose r; rest = dropWhile notClose r
             in if body \<noteq> [] \<and> prefix ''}}'' rest then Some (body, drop 2 rest) else None)
          else None
      | _ \<Rightarrow> None)"

lemma matchAt_shorter: "matchAt s = Some (body, rest) \<Longrightarrow> length rest < length s"
proof -
  assume m: "matchAt s = Some (body, rest)"
  then obtain r where s: "s = CHR ''{'' # CHR ''{'' # r" and rest: "rest = drop 2 (dropWhile notClose r)"
    by (auto simp: matchAt_def Let_def split: list.splits if_splits)
  have "length (dropWhile notClose r) \<le> length r"
    by (rule length_dropWhile_le)
  with s rest show ?thesis by simp
qed

function replaceAll :: "(string \<Rightarrow> string \<Rightarrow> string) \<Rightarrow> string \<Rightarrow> string" where
  "replaceAll f [] = []"
| "replaceAll f (c # s) =
     (case matchAt (c # s) of
        Some (body, rest) \<Rightarrow> f (''{{'' @ body @ ''}}'') body @ replaceAll f rest
      | None \<Rightarrow> c # replaceAll f s)"
  by pat_completeness auto
termination
  by (relation "measure (\<lambda>(f, s). length s)") (auto dest: matchAt_shorter)

fun splitDot :: "string \<Rightarrow> string list" where
  \<comment> \<open>\<open>s.split('.')\<close>: the segments between the dots, at least one\<close>
  "splitDot [] = [[]]"
| "splitDot (c # s) =
     (if c = CHR ''.'' then [] # splitDot s
      else (case splitDot s of [] \<Rightarrow> [[c]] | seg # segs \<Rightarrow> (c # seg) # segs))"

definition legacyId :: string where
  "legacyId = ''input_1753600591013_e9ksojj74''"

subsection \<open>The resolver of the execution route\<close>

text \<open>The context is the map of the results recorded so far, keyed by node id.\<close>

definition resolveLegacy :: "jmap \<Rightarrow> string option" where
  \<comment> \<open>the first string result under a key containing \<open>.output\<close>, else the \<open>input\<close> entry\<close>
  "resolveLegacy ctx =
     (case List.find (\<lambda>kv. str_includes (fst kv) ''.output'' \<and> isString (snd kv)) ctx of
        Some kv \<Rightarrow> Some (toStr (snd kv))
      | None \<Rightarrow>
          (let inputValue = mapGet ctx ''input''
           in if inputValue \<noteq> JUndef then Some (toStr inputValue) else None))"

definition resolveDotted :: "jmap \<Rightarrow> string \<Rightarrow> string option" where
  \<comment> \<open>\<open>[nodeId, property] = path.split('.', 2)\<close> on a path that contains a dot\<close>
  "resolveDotted ctx path =
     (let parts = splitDot path;
          nodeId = parts ! 0;
          property = parts ! 1;
          nodeResult = mapGet ctx nodeId
      in if truthy nodeResult \<and> isObject nodeResult \<and> hasProp property nodeResult then
           Some (toStr (getProp nodeResult property))
         else if property = ''output'' \<and> truthy nodeResult then
           Some (if isString nodeResult then toStr nodeResult else json_stringify nodeResult)
         else None)"

definition resolveDirect :: "jmap \<Rightarrow> string \<Rightarrow> string option" where
  "resolveDirect ctx path =
     (let v = mapGet ctx path
      in if v \<noteq> JUndef then Some (if isString v then toStr v else json_stringify v) else None)"

definition resolveMatch :: "jmap \<Rightarrow> string \<Rightarrow> string \<Rightarrow> string" where
  \<comment> \<open>the replacement callback of \<open>processTemplate\<close>\<close>
  "resolveMatch ctx match variablePath =
     (let trimmedPath = trim variablePath in
      case (if str_includes trimmedPath legacyId then resolveLegacy ctx else None) of
        Some r \<Rightarrow> r
      | None \<Rightarrow>
          (case (if str_includes trimmedPath ''.'' then resolveDotted ctx trimmedPath else None) of
             Some r \<Rightarrow> r
           | None \<Rightarrow>
               (case resolveDirect ctx trimmedPath of
                  Some r \<Rightarrow> r
                | None \<Rightarrow> match)))"

definition processTemplate :: "jv \<Rightarrow> jmap \<Rightarrow> jv" where
  "processTemplate template ctx =
     (case template of
        JStr t \<Rightarrow> JStr (replaceAll (resolveMatch ctx) t)
      | _ \<Rightarrow> template)"


subsection \<open>The resolver of the workflow executor\<close>

record WorkflowContext =
  variables :: "(string \<times> jv) list"
  nodeOutputs :: "(string \<times> jv) list"
  globalData :: "(string \<times> jv) list"

definition newContext :: WorkflowContext where
  "newContext = \<lparr> variables = [], nodeOutputs = [], globalData = [] \<rparr>"

fun walkPath :: "jv \<Rightarrow> string list \<Rightarrow> jv" where
  "walkPath current [] = current"
| "walkPath current (part # parts) =
     (if truthy current \<and> isObject current \<and> hasProp part current
      then walkPath (getProp current part) parts
      else JUndef)"

definition getVariable :: "WorkflowContext \<Rightarrow> string \<Rightarrow> jv" where
  "getVariable ctx path =
     (case map_of (variables ctx) path of
        Some v \<Rightarrow> v
      | None \<Rightarrow> walkPath (JObj (variables ctx)) (splitDot path))"

fun replaceFirst :: "string \<Rightarrow> string \<Rightarrow> string \<Rightarrow> string" where
  \<comment> \<open>\<open>s.replace(pat, rep)\<close> for a string pattern: the first occurrence only\<close>
  "replaceFirst pat rep [] = (if pat = [] then rep else [])"
| "replaceFirst pat rep (c # s) =
     (if prefix pat (c # s) then rep @ drop (length pat) (c # s)
      else c # replaceFirst pat rep s)"

definition nodeAlias :: "string \<Rightarrow> string" where
  \<comment> \<open>the variable that a path starting with \<open>node_\<close> is mapped to\<close>
  "nodeAlias trimmedPath =
     (let nodeNumber = splitDot (replaceFirst ''node_'' [] trimmedPath) ! 0;
          property = (if str_includes trimmedPath ''.'' then splitDot trimmedPath ! 1 else ''output'')
      in nodeNumber @ ''.'' @ property)"

definition orMatch :: "jv \<Rightarrow> string \<Rightarrow> string" where
  \<comment> \<open>\<open>value !== undefined ? String(value) : match\<close>\<close>
  "orMatch v match = (if v \<noteq> JUndef then toStr v else match)"

definition WorkflowExecutor_resolveMatch :: "WorkflowContext \<Rightarrow> string \<Rightarrow> string \<Rightarrow> string" where
  \<comment> \<open>the replacement callback of \<open>WorkflowExecutor.processTemplate\<close>\<close>
  "WorkflowExecutor_resolveMatch ctx match variablePath =
     (let trimmedPath = trim variablePath in
      if str_includes trimmedPath legacyId then
        (let correctedPath = (if str_includes trimmedPath ''.data'' then ''1.output''
                              else replaceFirst legacyId ''1'' trimmedPath)
         in orMatch (getVariable ctx correctedPath) match)
      else if prefix ''node_'' trimmedPath then
        orMatch (getVariable ctx (nodeAlias trimmedPath)) match
      else orMatch (getVariable ctx trimmedPath) match)"

definition WorkflowExecutor_processTemplate :: "WorkflowContext \<Rightarrow> jv \<Rightarrow> jv" where
  "WorkflowExecutor_processTemplate ctx template =
     (case template of
        JStr t \<Rightarrow> JStr (replaceAll (WorkflowExecutor_resolveMatch ctx) t)
      | _ \<Rightarrow> template)"

section \<open>Workflow graphs and node dispatch of the execution route\<close>

record NodeData =
  nodeId :: string
  nodeType :: string
  config :: jv

record EdgeData =
  edgeId :: string
  source :: string
  target :: string
  sourceHandle :: "string option"

text \<open>
  What a node action can throw: a \<open>TypeError\<close> of the runtime, or an \<open>Error\<close> raised
  with a message.
\<close>

datatype failure = TypeError | Raised string

text \<open>
  The collaborators of the dispatcher: the clock read when a node runs, the text
  completion service, the file processor, and the description of uploaded browser files
  (the success branch of a data-entry node, which reads \<open>File\<close> objects).
\<close>

datatype completion = Completed jv | Refused jv | CompletionThrew string

datatype extraction = Extracted string "jv list" | ExtractionThrew string

record Env =
  timestamp :: "string \<Rightarrow> jv"
  callGeminiAPI :: "jv \<Rightarrow> jv \<Rightarrow> completion"
  processFiles :: "jv list \<Rightarrow> jv \<Rightarrow> jv \<Rightarrow> extraction"
  describeUploads :: "jv \<Rightarrow> failure + jv"

definition enumerate_from0 :: "'a list \<Rightarrow> ('a \<times> nat) list" where
  "enumerate_from0 xs = zip xs [0..<length xs]"

definition combineInputs :: "jmap \<Rightarrow> EdgeData list \<Rightarrow> (string \<times> jv) list" where
  \<comment> \<open>\<open>inputEdges.forEach((edge, index) => { combinedInput[`input_${index}`] = ...;
      combinedInput[edge.source] = ... })\<close>\<close>
  "combineInputs results inputEdges =
     foldl (\<lambda>combinedInput ei.
              objSet (source (fst ei)) (mapGet results (source (fst ei)))
                (objSet (''input_'' @ nat_to_string (snd ei)) (mapGet results (source (fst ei)))
                   combinedInput))
           [] (enumerate_from0 inputEdges)"


definition getNodeInputData :: "string \<Rightarrow> EdgeData list \<Rightarrow> jmap \<Rightarrow> jv" where
  "getNodeInputData nid edges results =
     (let inputEdges = filter (\<lambda>edge. target edge = nid) edges in
      if length inputEdges = 0 then JNull
      else if length inputEdges = 1 then mapGet results (source (inputEdges ! 0))
      else JObj (combineInputs results inputEdges))"

definition effectiveInputData :: "string \<Rightarrow> EdgeData list \<Rightarrow> jmap \<Rightarrow> jv \<Rightarrow> jv" where
  \<comment> \<open>\<open>nodeInputData || inputData\<close>, the input handed to the node's action\<close>
  "effectiveInputData nid edges results inputData =
     jor (getNodeInputData nid edges results) inputData"

definition isArray :: "jv \<Rightarrow> bool" where
  "isArray v = (case v of JArr xs \<Rightarrow> True | _ \<Rightarrow> False)"

definition elements :: "jv \<Rightarrow> jv list" where
  "elements v = (case v of JArr xs \<Rightarrow> xs | _ \<Rightarrow> [])"

definition lengthOf :: "jv \<Rightarrow> jv" where
  \<comment> \<open>\<open>v.length\<close> of a value that is not \<open>null\<close> or \<open>undefined\<close>\<close>
  "lengthOf v = (case v of JArr xs \<Rightarrow> JNum (int (length xs))
                          | JStr s \<Rightarrow> JNum (int (length s))
                          | _ \<Rightarrow> getProp v ''length'')"

definition evaluateConditionOp :: "jv \<Rightarrow> jv \<Rightarrow> jv \<Rightarrow> bool" where
  \<comment> \<open>the \<open>switch\<close> compares the operator with string labels: a non-string matches none\<close>
  "evaluateConditionOp v c operator =
     (case operator of JStr op \<Rightarrow> evaluateCondition v c op | _ \<Rightarrow> False)"

definition branchLabel :: "bool \<Rightarrow> string" where
  "branchLabel b = (if b then ''true'' else ''false'')"

definition executeNode :: "Env \<Rightarrow> NodeData \<Rightarrow> jmap \<Rightarrow> jv \<Rightarrow> EdgeData list \<Rightarrow> failure + jv" where
  "executeNode env node previousResults inputData edges =
     (let effective = effectiveInputData (nodeId node) edges previousResults inputData;
          connected = (truthy (getNodeInputData (nodeId node) edges previousResults)
                       \<and> \<not> strictEq effective inputData);
          cfg = (\<lambda>key. getProp (config node) key);
          now = timestamp env (nodeId node);
          ty = nodeType node
      in
      if ty = ''input'' then
        Inr (JObj [(''data'', if connected then effective else inputData),
                   (''message'', JStr (if connected then ''Input received from connected node''
                                       else ''Initial input received'')),
                   (''hasIncomingConnection'', JBool connected),
                   (''timestamp'', now)])
      else if ty = ''prompt'' then
        (let processedPrompt =
               processTemplate (jor (cfg ''prompt'') (JStr ''Process the following: {{input}}''))
                 previousResults;
             model = jor (cfg ''model'') (JStr ''gemini-1.5-flash'')
         in case callGeminiAPI env processedPrompt model of
              Completed text \<Rightarrow>
                Inr (JObj [(''prompt'', processedPrompt), (''response'', text), (''model'', model),
                           (''input_data'', effective), (''timestamp'', now)])
            | Refused err \<Rightarrow>
                Inr (JObj [(''prompt'', processedPrompt),
                           (''response'', JStr (''Error from Gemini API: '' @ toStr err)),
                           (''model'', model), (''input_data'', effective), (''error'', err),
                           (''timestamp'', now)])
            | CompletionThrew msg \<Rightarrow>
                Inr (JObj [(''prompt'', processedPrompt),
                           (''response'', JStr (''Failed to call Gemini API: '' @ msg)),
                           (''model'', model), (''input_data'', effective), (''error'', JStr msg),
                           (''timestamp'', now)]))
      else if ty = ''api'' then
        (let apiUrl = processTemplate (jor (cfg ''url'') (JStr ''https://api.example.com''))
                        previousResults;
             apiBody = processTemplate (jor (cfg ''body'') (JStr ''{}'')) previousResults
         in Inr (JObj [(''status'', JNum 200),
                       (''data'', JObj [(''message'', JStr ''API call simulated''),
                                        (''processed_input'', effective)]),
                       (''url'', apiUrl),
                       (''method'', jor (cfg ''method'') (JStr ''GET'')),
                       (''body'', apiBody),
                       (''timestamp'', now)]))
      else if ty = ''logic'' then
        (let processedCondition =
               processTemplate (jor (cfg ''condition'') (JStr ''true'')) previousResults;
             compareValue = jor (cfg ''compareValue'') (JStr ''true'');
             operator = jor (cfg ''operator'') (JStr ''equals'');
             conditionResult = evaluateConditionOp processedCondition compareValue operator
         in Inr (JObj [(''condition'', processedCondition),
                       (''compareValue'', compareValue),
                       (''operator'', operator),
                       (''result'', JBool conditionResult),
                       (''branch'', JStr (branchLabel conditionResult)),
                       (''nextPath'', JStr (branchLabel conditionResult)),
                       (''input_data'', effective),
                       (''timestamp'', now)]))
      else if ty = ''dataEntry'' then
        (let uploadedFiles = cfg ''uploadedFiles'' in
         if \<not> truthy uploadedFiles \<or> strictEq (lengthOf uploadedFiles) (JNum 0) then
           Inr (JObj [(''success'', JBool False), (''error'', JStr ''No files uploaded''),
                      (''files'', JArr []), (''timestamp'', now)])
         else describeUploads env uploadedFiles)
      else if ty = ''fileToText'' then
        (let extractionMethod = jor (cfg ''extractionMethod'') (JStr ''auto'');
             outputFormat = jor (cfg ''outputFormat'') (JStr ''text'');
             usable = (truthy effective \<and> isObject effective);
             fromData = (if usable \<and> hasProp ''data'' effective \<and> isArray (getProp effective ''data'')
                         then elements (getProp effective ''data'') else []);
             filesToProcess = (if usable \<and> hasProp ''files'' effective
                                  \<and> isArray (getProp effective ''files'')
                               then elements (getProp effective ''files'') else fromData)
         in if length filesToProcess = 0 then
              Inr (JObj [(''success'', JBool False),
                         (''error'', JStr ''No files received for text extraction''),
                         (''extractedText'', JStr []), (''output'', JStr []), (''timestamp'', now)])
            else
              (case processFiles env filesToProcess extractionMethod outputFormat of
                 Extracted combinedText processingResults \<Rightarrow>
                   Inr (JObj [(''success'', JBool True),
                              (''extractedText'', JStr combinedText),
                              (''data'', JStr combinedText),
                              (''output'', JStr combinedText),
                              (''extractionMethod'', extractionMethod),
                              (''outputFormat'', outputFormat),
                              (''processedFiles'', JNum (int (length processingResults))),
                              (''successfulExtractions'',
                                 JNum (int (length (filter (\<lambda>r. truthy (getProp r ''success''))
                                                           processingResults)))),
                              (''fileResults'', JArr processingResults),
                              (''timestamp'', now)])
               | ExtractionThrew msg \<Rightarrow>
                   Inr (JObj [(''success'', JBool False),
                              (''error'', JStr (''File processing failed: '' @ msg)),
                              (''extractedText'', JStr []), (''output'', JStr []),
                              (''timestamp'', now)])))
      else if ty = ''fileUpload'' then
        (let processedText = jor (cfg ''processedText'') (cfg ''data'');
             files = jor (cfg ''files'') (JArr [])
         in if processedText \<noteq> JUndef \<and> processedText \<noteq> JNull
               \<and> \<not> isString processedText \<and> \<not> isArray processedText then
              Inl TypeError
            else if \<not> truthy processedText \<and> strictEq (lengthOf files) (JNum 0) then
              Inr (JObj [(''success'', JBool False),
                         (''error'', JStr ''No files uploaded or processed text available''),
                         (''files'', JArr []), (''processedText'', JStr []), (''data'', JStr []),
                         (''timestamp'', now)])
            else
              Inr (JObj [(''success'', JBool True),
                         (''files'', files),
                         (''processedText'', jor processedText (JStr [])),
                         (''data'', jor processedText (JStr [])),
                         (''output'', jor processedText (JStr [])),
                         (''fileCount'', lengthOf files),
                         (''extractionMethod'', jor (cfg ''extractionMethod'') (JStr ''auto'')),
                         (''outputFormat'', jor (cfg ''outputFormat'') (JStr ''text'')),
                         (''uploadStatus'', jor (cfg ''uploadStatus'') (JStr ''success'')),
                         (''timestamp'', now)]))
      else if ty = ''output'' then
        Inr (JObj [(''final_output'', effective),
                   (''all_results'', fromEntries previousResults),
                   (''format'', jor (cfg ''format'') (JStr ''json'')),
                   (''timestamp'', now)])
      else
        Inr (JObj [(''message'', JStr ''Unknown node type''),
                   (''node_type'', JStr ty),
                   (''input_data'', effective)]))"

section \<open>Graph traversal of the execution route\<close>

text \<open>
  A \<open>for\<close> loop whose body awaits a step that may throw: the state is threaded through
  the steps and the first failure ends the loop. A step that has no result because its
  recursion budget ran out gives \<open>None\<close>.
\<close>

fun forEach :: "('s \<Rightarrow> 'a \<Rightarrow> (failure + 's) option) \<Rightarrow> 'a list \<Rightarrow> 's \<Rightarrow> (failure + 's) option" where
  "forEach step [] s = Some (Inr s)"
| "forEach step (x # xs) s =
     (case step s x of
        None \<Rightarrow> None
      | Some (Inl err) \<Rightarrow> Some (Inl err)
      | Some (Inr s') \<Rightarrow> forEach step xs s')"

definition findNode :: "NodeData list \<Rightarrow> string \<Rightarrow> NodeData option" where
  \<comment> \<open>\<open>nodes.find(n => n.id === nodeId)\<close>\<close>
  "findNode nodes nid = List.find (\<lambda>n. nodeId n = nid) nodes"

subsection \<open>Dependency-aware strategy\<close>

text \<open>
  The state of \<open>executeDependencyAwareWorkflow\<close>: the results map and the two sets
  \<open>executed\<close> and \<open>executing\<close>. The field \<open>calls\<close> is the history of the calls of
  \<open>executeNode\<close>: the node id and the results map passed to the call.
\<close>

record DepState =
  results :: jmap
  executed :: "string set"
  executing :: "string set"
  calls :: "(string \<times> jmap) list"

text \<open>
  \<open>executeNodeWithDependencies\<close>. The first argument bounds the depth of the recursion;
  \<open>None\<close> means that the bound was reached.
\<close>

fun executeNodeWithDependencies ::
  "nat \<Rightarrow> Env \<Rightarrow> NodeData list \<Rightarrow> EdgeData list \<Rightarrow> jv \<Rightarrow> DepState \<Rightarrow> string
     \<Rightarrow> (failure + DepState) option" where
  "executeNodeWithDependencies 0 env nodes edges inputData s nid = None"
| "executeNodeWithDependencies (Suc depth) env nodes edges inputData s nid =
     (if nid \<in> executed s \<or> nid \<in> executing s then Some (Inr s)
      else
        (let s1 = s\<lparr>executing := insert nid (executing s)\<rparr> in
         case findNode nodes nid of
           None \<Rightarrow> Some (Inr (s1\<lparr>executing := executing s1 - {nid}\<rparr>))
         | Some node \<Rightarrow>
             (let dependencies = filter (\<lambda>edge. target edge = nid) edges in
              case forEach (\<lambda>st dep. executeNodeWithDependencies depth env nodes edges inputData
                                        st (source dep))
                     dependencies s1 of
                None \<Rightarrow> None
              | Some (Inl err) \<Rightarrow> Some (Inl err)
              | Some (Inr s2) \<Rightarrow>
                  (case executeNode env node (results s2) inputData edges of
                     Inl err \<Rightarrow> Some (Inl err)
                   | Inr nodeResult \<Rightarrow>
                       Some (Inr (s2\<lparr>results := mapSet (nodeId node) nodeResult (results s2),
                                      executed := insert nid (executed s2),
                                      executing := executing s2 - {nid},
                                      calls := calls s2 @ [(nodeId node, results s2)]\<rparr>))))))"

definition executeDependencyAwareWorkflow ::
  "Env \<Rightarrow> NodeData list \<Rightarrow> EdgeData list \<Rightarrow> jmap \<Rightarrow> jv \<Rightarrow> (failure + DepState) option" where
  "executeDependencyAwareWorkflow env nodes edges results0 inputData =
     forEach (executeNodeWithDependencies (Suc (length nodes)) env nodes edges inputData)
       (map nodeId nodes)
       \<lparr>results = results0, executed = {}, executing = {}, calls = []\<rparr>"

subsection \<open>Branching strategy\<close>

text \<open>
  The state of \<open>executeBranchingWorkflow\<close>: the results map and the \<open>visited\<close> set. The
  fields \<open>invoked\<close> and \<open>followed\<close> are the history of the run: the calls of \<open>executeNode\<close>
  (node id and results map passed) and the edges whose target the chain was continued
  with.
\<close>

record BranchState =
  outputs :: jmap
  visited :: "string set"
  invoked :: "(string \<times> jmap) list"
  followed :: "EdgeData list"

fun executeNodeChain ::
  "nat \<Rightarrow> Env \<Rightarrow> NodeData list \<Rightarrow> EdgeData list \<Rightarrow> jv \<Rightarrow> BranchState \<Rightarrow> string
     \<Rightarrow> (failure + BranchState) option" where
  "executeNodeChain 0 env nodes edges inputData s nid = None"
| "executeNodeChain (Suc depth) env nodes edges inputData s nid =
     (if nid \<in> visited s then Some (Inr s)
      else
        (let s1 = s\<lparr>visited := insert nid (visited s)\<rparr> in
         case findNode nodes nid of
           None \<Rightarrow> Some (Inr s1)
         | Some node \<Rightarrow>
             (case executeNode env node (outputs s1) inputData edges of
                Inl err \<Rightarrow> Some (Inl err)
              | Inr nodeResult \<Rightarrow>
                  (let s2 = s1\<lparr>outputs := mapSet (nodeId node) nodeResult (outputs s1),
                               invoked := invoked s1 @ [(nodeId node, outputs s1)]\<rparr>;
                       outgoingEdges = filter (\<lambda>edge. source edge = nid) edges
                   in if nodeType node = ''logic'' then
                        (let expectedHandle = branchLabel (truthy (getProp nodeResult ''result''))
                         in case List.find (\<lambda>edge. sourceHandle edge = Some expectedHandle)
                                   outgoingEdges of
                              Some targetEdge \<Rightarrow>
                                executeNodeChain depth env nodes edges inputData
                                  (s2\<lparr>followed := followed s2 @ [targetEdge]\<rparr>) (target targetEdge)
                            | None \<Rightarrow> Some (Inr s2))
                      else
                        forEach (\<lambda>st edge. executeNodeChain depth env nodes edges inputData
                                             (st\<lparr>followed := followed st @ [edge]\<rparr>) (target edge))
                          outgoingEdges s2))))"

definition executeBranchingWorkflow ::
  "Env \<Rightarrow> NodeData list \<Rightarrow> EdgeData list \<Rightarrow> string \<Rightarrow> jmap \<Rightarrow> jv
     \<Rightarrow> (failure + BranchState) option" where
  "executeBranchingWorkflow env nodes edges startNodeId results0 inputData =
     executeNodeChain (Suc (length nodes)) env nodes edges inputData
       \<lparr>outputs = results0, visited = {}, invoked = [], followed = []\<rparr> startNodeId"

subsection \<open>Choice of the strategy and of the start node\<close>

definition findStartingNode :: "NodeData list \<Rightarrow> EdgeData list \<Rightarrow> NodeData option" where
  "findStartingNode nodes edges =
     (case List.find (\<lambda>node. nodeType node = ''input'') nodes of
        Some startNode \<Rightarrow> Some startNode
      | None \<Rightarrow>
          (case List.find (\<lambda>node. nodeType node = ''dataEntry'') nodes of
             Some startNode \<Rightarrow> Some startNode
           | None \<Rightarrow>
               (let nodesWithIncoming = set (map target edges)
                in List.find (\<lambda>node. nodeId node \<notin> nodesWithIncoming) nodes)))"

text \<open>
  The result of a run: \<open>success\<close>, the output (the results as an object, or \<open>null\<close>) and
  the error (the message of a raised error, or the runtime's type error).
\<close>

record RunResult =
  success :: bool
  output_data :: jv
  error_message :: "failure option"

definition noStartingNode :: string where
  "noStartingNode = ''No starting node found (input, dataEntry, or orphaned node)''"

definition runFailed :: "failure \<Rightarrow> RunResult" where
  "runFailed err = \<lparr> success = False, output_data = JNull, error_message = Some err \<rparr>"

definition runSucceeded :: "jmap \<Rightarrow> RunResult" where
  "runSucceeded res = \<lparr> success = True, output_data = fromEntries res, error_message = None \<rparr>"

definition executeCurrentWorkflow ::
  "Env \<Rightarrow> NodeData list \<Rightarrow> EdgeData list \<Rightarrow> jv \<Rightarrow> RunResult option" where
  "executeCurrentWorkflow env nodes edges inputData =
     (let hasLogicNodes = list_ex (\<lambda>node. nodeType node = ''logic'') nodes in
      if hasLogicNodes then
        (case findStartingNode nodes edges of
           None \<Rightarrow> Some (runFailed (Raised noStartingNode))
         | Some startNode \<Rightarrow>
             (case executeBranchingWorkflow env nodes edges (nodeId startNode) [] inputData of
                None \<Rightarrow> None
              | Some (Inl err) \<Rightarrow> Some (runFailed err)
              | Some (Inr s) \<Rightarrow> Some (runSucceeded (outputs s))))
      else
        (case executeDependencyAwareWorkflow env nodes edges [] inputData of
           None \<Rightarrow> None
         | Some (Inl err) \<Rightarrow> Some (runFailed err)
         | Some (Inr s) \<Rightarrow> Some (runSucceeded (results s))))"

section \<open>The workflow executor\<close>

text \<open>
  The class \<open>WorkflowExecutor\<close> of the second execution route keeps one context per run.
  Its three objects are written by \<open>setNodeOutput\<close> and \<open>setGlobalVariable\<close> only.
\<close>

definition setNodeOutput :: "string \<Rightarrow> jv \<Rightarrow> WorkflowContext \<Rightarrow> WorkflowContext" where
  "setNodeOutput nid out ctx =
     ctx\<lparr> nodeOutputs := objSet nid out (nodeOutputs ctx),
          variables := objSet ''input'' out (objSet (nid @ ''.output'') out (variables ctx)) \<rparr>"

definition setGlobalVariable :: "string \<Rightarrow> jv \<Rightarrow> WorkflowContext \<Rightarrow> WorkflowContext" where
  "setGlobalVariable key val ctx =
     ctx\<lparr> globalData := objSet key val (globalData ctx),
          variables := objSet key val (variables ctx) \<rparr>"

subsection \<open>JSON text with indentation\<close>

definition spaces :: "nat \<Rightarrow> string" where
  "spaces n = replicate n (CHR '' '')"

definition newline :: string where
  "newline = [CHR 0x0A]"

text \<open>\<open>JSON.stringify(v, null, 2)\<close>, the argument being the current indentation.\<close>

fun json_pretty :: "nat \<Rightarrow> jv \<Rightarrow> string" where
  "json_pretty ind JUndef = ''undefined''"
| "json_pretty ind JNull = ''null''"
| "json_pretty ind (JBool b) = (if b then ''true'' else ''false'')"
| "json_pretty ind (JNum n) = int_to_string n"
| "json_pretty ind (JStr s) = json_quote s"
| "json_pretty ind (JArr xs) =
     (if xs = [] then ''[]''
      else ''['' @ newline
           @ intercalate ('','' @ newline)
               (map (\<lambda>x. spaces (ind + 2)
                           @ (case x of JUndef \<Rightarrow> ''null'' | _ \<Rightarrow> json_pretty (ind + 2) x)) xs)
           @ newline @ spaces ind @ '']'')"
| "json_pretty ind (JObj kvs) =
     (if filter (\<lambda>kv. snd kv \<noteq> JUndef) kvs = [] then ''{}''
      else ''{'' @ newline
           @ intercalate ('','' @ newline)
               (map (\<lambda>kv. spaces (ind + 2) @ json_quote (fst kv) @ '': ''
                            @ json_pretty (ind + 2) (snd kv))
                    (filter (\<lambda>kv. snd kv \<noteq> JUndef) kvs))
           @ newline @ spaces ind @ ''}'')"

definition preview :: "string \<Rightarrow> string" where
  \<comment> \<open>\<open>s.substring(0, 200) + (s.length > 200 ? '...' : '')\<close>\<close>
  "preview s = take 200 s @ (if length s > 200 then ''...'' else [])"

definition csvOf :: "jv \<Rightarrow> string" where
  \<comment> \<open>the text of an object without braces and quotes and with commas for colons\<close>
  "csvOf v =
     (if isObject v then
        map (\<lambda>c. if c = CHR '':'' then CHR '','' else c)
            (filter (\<lambda>c. c \<noteq> CHR ''{'' \<and> c \<noteq> CHR ''}'' \<and> c \<noteq> CHR 0x22) (json_stringify v))
      else toStr v)"

subsection \<open>Node actions of the executor\<close>

definition firstTruthy :: "jv list \<Rightarrow> jv \<Rightarrow> jv" where
  \<comment> \<open>\<open>a || b || ... || fallback\<close>\<close>
  "firstTruthy vs fallback = foldr jor vs fallback"

definition logicOutcome :: "WorkflowContext \<Rightarrow> NodeData \<Rightarrow> jv \<times> jv \<times> jv \<times> bool" where
  \<comment> \<open>the resolved condition, the compare value, the operator and the result\<close>
  "logicOutcome ctx node =
     (let processedCondition =
            WorkflowExecutor_processTemplate ctx
              (jor (getProp (config node) ''condition'') (JStr ''{{input}}''));
          compareValue = jor (getProp (config node) ''compareValue'') (JStr []);
          operator = jor (getProp (config node) ''operator'') (JStr ''equals'')
      in (processedCondition, compareValue, operator,
          evaluateConditionOp processedCondition compareValue operator))"

definition nodeOutput :: "Env \<Rightarrow> WorkflowContext \<Rightarrow> NodeData \<Rightarrow> failure + jv" where
  \<comment> \<open>the \<open>switch\<close> of \<open>executeNode\<close>: the output of the node, or what it throws\<close>
  "nodeOutput env ctx node =
     (let currentInput = jor (getProp (JObj (variables ctx)) ''input'') (JStr ''No input yet'');
          cfg = (\<lambda>key. getProp (config node) key);
          now = timestamp env (nodeId node);
          ty = nodeType node
      in
      if config node = JUndef \<or> config node = JNull then Inl TypeError
      else if ty = ''input'' then
        (let inputType = jor (cfg ''inputType'') (JStr ''text'');
             out =
               (if inputType = JStr ''text'' then
                  firstTruthy [cfg ''textValue'', cfg ''data'', cfg ''initialValue'', cfg ''description'']
                    (JStr ''Workflow started'')
                else if inputType = JStr ''file'' then
                  firstTruthy [cfg ''processedText'', cfg ''data'', cfg ''description'']
                    (JStr ''No file uploaded'')
                else
                  firstTruthy [cfg ''processedText'', cfg ''data'', cfg ''textValue'',
                               cfg ''initialValue'', cfg ''description'']
                    (JStr ''Workflow started''))
         in if isString out then Inr out else Inl TypeError)
      else if ty = ''prompt'' then
        (let processedPrompt =
               WorkflowExecutor_processTemplate ctx (jor (cfg ''prompt'') (JStr ''Default prompt''));
             model = jor (cfg ''model'') (JStr ''gemini-1.5-flash'')
         in case callGeminiAPI env processedPrompt model of
              Completed text \<Rightarrow> Inr text
            | Refused err \<Rightarrow> Inr (JStr (''Error from Gemini API: '' @ toStr err))
            | CompletionThrew msg \<Rightarrow> Inr (JStr (''Failed to call Gemini API: '' @ msg)))
      else if ty = ''api'' then
        (let processedUrl =
               WorkflowExecutor_processTemplate ctx
                 (jor (cfg ''url'') (JStr ''https://api.example.com''));
             method = jor (cfg ''method'') (JStr ''GET'')
         in Inr (JStr (''API Response from '' @ toStr method @ '' '' @ toStr processedUrl)))
      else if ty = ''logic'' then
        (case logicOutcome ctx node of
           (processedCondition, compareValue, operator, result) \<Rightarrow>
             Inr (JObj [(''condition'', processedCondition), (''result'', JBool result),
                        (''compareValue'', compareValue), (''operator'', operator)]))
      else if ty = ''output'' then
        (let format = jor (cfg ''format'') (JStr ''json'') in
         if format = JStr ''json'' then
           (let jsonData = (if isString currentInput then toStr currentInput
                            else json_pretty 0 currentInput)
            in Inr (JObj [(''format'', JStr ''json''), (''data'', JStr jsonData),
                          (''timestamp'', now), (''preview'', JStr (preview jsonData))]))
         else if format = JStr ''text'' then
           Inr (JObj [(''format'', JStr ''text''), (''data'', JStr (toStr currentInput)),
                      (''timestamp'', now), (''preview'', JStr (preview (toStr currentInput)))])
         else if format = JStr ''csv'' then
           Inr (JObj [(''format'', JStr ''csv''), (''data'', JStr (csvOf currentInput)),
                      (''timestamp'', now), (''preview'', JStr (preview (csvOf currentInput)))])
         else
           Inr (JObj [(''format'', format), (''data'', currentInput),
                      (''timestamp'', now), (''preview'', JStr (preview (toStr currentInput)))]))
      else Inr currentInput)"

definition WorkflowExecutor_executeNode ::
  "Env \<Rightarrow> NodeData \<Rightarrow> WorkflowContext \<Rightarrow> failure + (jv \<times> WorkflowContext)" where
  \<comment> \<open>the output and the context after \<open>setNodeOutput\<close>\<close>
  "WorkflowExecutor_executeNode env node ctx =
     (case nodeOutput env ctx node of
        Inl err \<Rightarrow> Inl err
      | Inr out \<Rightarrow> Inr (out, setNodeOutput (nodeId node) out ctx))"

definition executeLogicNode :: "WorkflowContext \<Rightarrow> NodeData \<Rightarrow> bool" where
  \<comment> \<open>the \<open>result\<close> field of the logic result; \<open>nextPath\<close> is its label\<close>
  "executeLogicNode ctx node = (case logicOutcome ctx node of (c, v, oper, result) \<Rightarrow> result)"

subsection \<open>Traversal and request handler of the executor\<close>

record ExecState =
  execContext :: WorkflowContext
  executedIds :: "string list"
  seen :: "string set"

fun executeWithBranchingChain ::
  "nat \<Rightarrow> Env \<Rightarrow> NodeData list \<Rightarrow> EdgeData list \<Rightarrow> ExecState \<Rightarrow> string
     \<Rightarrow> (failure + ExecState) option" where
  "executeWithBranchingChain 0 env nodes edges s nid = None"
| "executeWithBranchingChain (Suc depth) env nodes edges s nid =
     (if nid \<in> seen s then Some (Inr s)
      else
        (let s1 = s\<lparr>seen := insert nid (seen s)\<rparr> in
         case findNode nodes nid of
           None \<Rightarrow> Some (Inr s1)
         | Some node \<Rightarrow>
             (case WorkflowExecutor_executeNode env node (execContext s1) of
                Inl err \<Rightarrow> Some (Inl err)
              | Inr (out, ctx) \<Rightarrow>
                  (let s2 = s1\<lparr>execContext := ctx, executedIds := executedIds s1 @ [nid]\<rparr>;
                       outgoingEdges = filter (\<lambda>edge. source edge = nid) edges
                   in if nodeType node = ''logic'' then
                        (let expectedHandle = branchLabel (executeLogicNode ctx node)
                         in case List.find (\<lambda>edge. sourceHandle edge = Some expectedHandle)
                                   outgoingEdges of
                              Some targetEdge \<Rightarrow>
                                executeWithBranchingChain depth env nodes edges s2 (target targetEdge)
                            | None \<Rightarrow> Some (Inr s2))
                      else
                        forEach (\<lambda>st edge. executeWithBranchingChain depth env nodes edges st
                                             (target edge))
                          outgoingEdges s2))))"

definition executeWithBranching ::
  "Env \<Rightarrow> NodeData list \<Rightarrow> EdgeData list \<Rightarrow> string \<Rightarrow> (failure + ExecState) option" where
  "executeWithBranching env nodes edges startNodeId =
     executeWithBranchingChain (Suc (length nodes)) env nodes edges
       \<lparr>execContext = newContext, executedIds = [], seen = {}\<rparr> startNodeId"

definition executeWorkflow ::
  "Env \<Rightarrow> NodeData list \<Rightarrow> EdgeData list \<Rightarrow> (failure + WorkflowContext) option" where
  "executeWorkflow env nodes edges =
     (case List.find (\<lambda>node. nodeType node = ''input'') nodes of
        None \<Rightarrow> Some (Inl (Raised ''No input node found''))
      | Some startNode \<Rightarrow>
          (case executeWithBranching env nodes edges (nodeId startNode) of
             None \<Rightarrow> None
           | Some (Inl err) \<Rightarrow> Some (Inl err)
           | Some (Inr s) \<Rightarrow> Some (Inr (execContext s))))"

text \<open>
  The request handler. The body of the request has the fields \<open>nodes\<close> and \<open>edges\<close>;
  a field that is missing or not an array is \<open>None\<close>.
\<close>

record ExecutionResponse =
  executionSuccess :: bool
  executionResult :: WorkflowContext
  executedNodes :: nat
  totalEdges :: nat

datatype response =
    BadRequest string
  | ServerError string failure
  | Succeeded ExecutionResponse

definition POST ::
  "Env \<Rightarrow> NodeData list option \<Rightarrow> EdgeData list option \<Rightarrow> response option" where
  "POST env nodesField edgesField =
     (case nodesField of
        None \<Rightarrow> Some (BadRequest ''Invalid nodes data'')
      | Some nodes \<Rightarrow>
          (case edgesField of
             None \<Rightarrow> Some (BadRequest ''Invalid edges data'')
           | Some edges \<Rightarrow>
               (case executeWorkflow env nodes edges of
                  None \<Rightarrow> None
                | Some (Inl err) \<Rightarrow> Some (ServerError ''Workflow execution failed'' err)
                | Some (Inr result) \<Rightarrow>
                    Some (Succeeded \<lparr> executionSuccess = True, executionResult = result,
                                       executedNodes = length nodes,
                                       totalEdges = length edges \<rparr>))))"

subsection \<open>Invariants of the dependency-aware walk\<close>

text \<open>
  What holds of the state between the steps of the walk: the executed nodes are the nodes
  of the call history, each called once; they are nodes of the graph, none of them is
  being executed, and they are the keys of the results map.
\<close>

definition dep_inv :: "NodeData list \<Rightarrow> DepState \<Rightarrow> bool" where
  "dep_inv nodes s \<longleftrightarrow>
     executed s = fst ` set (calls s) \<and> distinct (map fst (calls s))
     \<and> executed s \<subseteq> nodeId ` set nodes \<and> executed s \<inter> executing s = {}
     \<and> fst ` set (results s) = executed s \<and> distinct (map fst (results s))"

text \<open>The edges as a relation on node ids, from source to target.\<close>

definition edgeRel :: "EdgeData list \<Rightarrow> (string \<times> string) set" where
  "edgeRel edges = (\<lambda>e. (source e, target e)) ` set edges"

text \<open>
  Every call of \<open>executeNode\<close> found in the results map a result for each node of the
  graph that has an edge into the called node.
\<close>

definition dep_ord :: "NodeData list \<Rightarrow> EdgeData list \<Rightarrow> DepState \<Rightarrow> bool" where
  "dep_ord nodes edges s \<longleftrightarrow>
     (\<forall>(v, prev) \<in> set (calls s). \<forall>e \<in> set edges.
        target e = v \<and> source e \<in> nodeId ` set nodes \<longrightarrow> source e \<in> fst ` set prev)"

subsection \<open>Invariants of the branching walk\<close>







subsection \<open>Small graphs\<close>

text \<open>Constructors for the nodes and edges of the example graphs used below.\<close>

definition mkNode :: "string \<Rightarrow> string \<Rightarrow> NodeData" where
  "mkNode i ty = \<lparr>nodeId = i, nodeType = ty, config = JObj []\<rparr>"

definition mkEdge :: "string \<Rightarrow> string \<Rightarrow> EdgeData" where
  "mkEdge a b = \<lparr>edgeId = a @ ''-'' @ b, source = a, target = b, sourceHandle = None\<rparr>"


definition logicNode :: "string \<Rightarrow> string \<Rightarrow> string \<Rightarrow> string \<Rightarrow> NodeData" where
  "logicNode i cond cmp op =
     \<lparr>nodeId = i, nodeType = ''logic'',
      config = JObj [(''condition'', JStr cond), (''compareValue'', JStr cmp), (''operator'', JStr op)]\<rparr>"

definition testEnv :: Env where
  "testEnv = \<lparr> timestamp = (\<lambda>nid. JStr ''2025-01-01T00:00:00.000Z''),
               callGeminiAPI = (\<lambda>prompt model. Completed (JStr ''text'')),
               processFiles = (\<lambda>files method format. Extracted ''text'' []),
               describeUploads = (\<lambda>files. Inl TypeError) \<rparr>"

section \<open>Properties of the template scan\<close>





lemma splitDot_nonempty [simp]: "splitDot s \<noteq> []"
  by (induction s) (auto split: list.splits)



section \<open>Properties of the condition evaluator\<close>


lemma num_lt_NaN_right [simp]: "num_lt a NaN = False"
  by (cases a) simp_all






section \<open>Properties of the template resolvers\<close>






lemma legacy_ex: "\<not> str_includes ''ghost'' legacyId" "\<not> str_includes ''n1.s'' legacyId"
  by (simp_all add: legacyId_def)







text \<open>
  The executor coerces with \<open>String\<close>, so an object value is not written as JSON text
  there.
\<close>

lemma executor_object_example:
  "WorkflowExecutor_processTemplate
        \<lparr>variables = [(''1.output'', JObj [(''result'', JBool True)])], nodeOutputs = [], globalData = []\<rparr>
        (JStr ''{{1.output}}'') = JStr ''[object Object]''"
  by (simp add: WorkflowExecutor_processTemplate_def matchAt_def notClose_def
      WorkflowExecutor_resolveMatch_def trim_def isWhite_def legacyId_def getVariable_def orMatch_def Let_def)

lemma replaceFirst_prefix: "pat \<noteq> [] \<Longrightarrow> replaceFirst pat rep (pat @ s) = rep @ s"
  by (cases pat) simp_all







section \<open>Properties of the node input\<close>













section \<open>Properties of the traversal engine\<close>





lemma forEach_Cons_Inr:
  "forEach step (x # xs) s = Some (Inr s') \<Longrightarrow>
   \<exists>s1. step s x = Some (Inr s1) \<and> forEach step xs s1 = Some (Inr s')"
  by (cases "step s x") (auto split: sum.splits)

lemma forEach_inv:
  assumes "forEach step xs s = Some (Inr s')" and "I s"
    and "\<And>st x st'. x \<in> set xs \<Longrightarrow> I st \<Longrightarrow> step st x = Some (Inr st') \<Longrightarrow> I st'"
  shows "I s'"
  using assms
proof (induction xs arbitrary: s)
  case Nil
  from Nil.prems(1,2) show ?case by simp
next
  case (Cons x xs)
  from forEach_Cons_Inr [OF Cons.prems(1)] obtain s1 where s1: "step s x = Some (Inr s1)"
    and rest: "forEach step xs s1 = Some (Inr s')" by blast
  have "I s1" by (rule Cons.prems(3) [OF _ Cons.prems(2) s1]) simp
  with rest show ?case
  proof (rule Cons.IH)
    fix st y st' assume "y \<in> set xs" "I st" "step st y = Some (Inr st')"
    then show "I st'" by (intro Cons.prems(3) [of y st st']) simp_all
  qed
qed

lemma forEach_each:
  assumes "forEach step xs s = Some (Inr s')" and "I s"
    and "\<And>st x st'. x \<in> set xs \<Longrightarrow> I st \<Longrightarrow> step st x = Some (Inr st') \<Longrightarrow> I st' \<and> Q x st'"
    and "\<And>st z y st'. y \<in> set xs \<Longrightarrow> I st \<Longrightarrow> Q z st \<Longrightarrow> step st y = Some (Inr st') \<Longrightarrow> Q z st'"
    and "x \<in> set xs"
  shows "Q x s'"
  using assms
proof (induction xs arbitrary: s)
  case Nil
  from Nil.prems(5) show ?case by simp
next
  case (Cons y ys)
  from forEach_Cons_Inr [OF Cons.prems(1)] obtain s1 where s1: "step s y = Some (Inr s1)"
    and rest: "forEach step ys s1 = Some (Inr s')" by blast
  have y: "y \<in> set (y # ys)" by simp
  have step1: "I s1 \<and> Q y s1" using Cons.prems(3) [OF y Cons.prems(2) s1] .
  then have I1: "I s1" and Q1: "Q y s1" by simp_all
  show ?case
  proof (cases "x \<in> set ys")
    case True
    show ?thesis
    proof (rule Cons.IH [OF rest I1 _ _ True])
      fix st u st' assume a: "u \<in> set ys" "I st" "step st u = Some (Inr st')"
      from a(1) have "u \<in> set (y # ys)" by simp
      then show "I st' \<and> Q u st'" using a(2,3) by (rule Cons.prems(3))
    next
      fix st z u st' assume a: "u \<in> set ys" "I st" "Q z st" "step st u = Some (Inr st')"
      from a(1) have "u \<in> set (y # ys)" by simp
      then show "Q z st'" using a(2,3,4) by (rule Cons.prems(4))
    qed
  next
    case False
    with Cons.prems(5) have xy: "x = y" by simp
    have "I s' \<and> Q y s'"
    proof (rule forEach_inv [where I = "\<lambda>st. I st \<and> Q y st", OF rest])
      show "I s1 \<and> Q y s1" by (rule step1)
    next
      fix st u st' assume a: "u \<in> set ys" "I st \<and> Q y st" "step st u = Some (Inr st')"
      from a(1) have u: "u \<in> set (y # ys)" by simp
      from a(2) have ist: "I st" and qst: "Q y st" by simp_all
      have "I st'" using Cons.prems(3) [OF u ist a(3)] by simp
      moreover have "Q y st'" using u ist qst a(3) by (rule Cons.prems(4))
      ultimately show "I st' \<and> Q y st'" by simp
    qed
    with xy show ?thesis by simp
  qed
qed

lemma forEach_returns:
  assumes "I s"
    and "\<And>st x. x \<in> set xs \<Longrightarrow> I st \<Longrightarrow> step st x \<noteq> None"
    and "\<And>st x st'. x \<in> set xs \<Longrightarrow> I st \<Longrightarrow> step st x = Some (Inr st') \<Longrightarrow> I st'"
  shows "forEach step xs s \<noteq> None"
  using assms
proof (induction xs arbitrary: s)
  case Nil
  show ?case by simp
next
  case (Cons x xs)
  have "step s x \<noteq> None" by (rule Cons.prems(2) [OF _ Cons.prems(1)]) simp
  then obtain r where r: "step s x = Some r" by blast
  show ?case
  proof (cases r)
    case (Inl err)
    with r show ?thesis by simp
  next
    case (Inr s1)
    have "I s1" by (rule Cons.prems(3) [of x s s1]) (simp_all add: r Inr Cons.prems(1))
    then have "forEach step xs s1 \<noteq> None"
    proof (rule Cons.IH)
      fix st y assume "y \<in> set xs" "I st"
      then show "step st y \<noteq> None" by (intro Cons.prems(2)) simp_all
    next
      fix st y st' assume "y \<in> set xs" "I st" "step st y = Some (Inr st')"
      then show "I st'" by (intro Cons.prems(3) [of y st st']) simp_all
    qed
    with r Inr show ?thesis by simp
  qed
qed

lemma findNode_Some: "findNode nodes nid = Some node \<Longrightarrow> node \<in> set nodes \<and> nodeId node = nid"
  unfolding findNode_def by (induction nodes) (auto split: if_splits)

lemma findNode_None: "findNode nodes nid = None \<longleftrightarrow> nid \<notin> nodeId ` set nodes"
  unfolding findNode_def by (induction nodes) auto

lemma keys_mapSet: "fst ` set (mapSet k v m) = insert k (fst ` set m)"
  unfolding mapSet_def by (induction m) auto

lemma distinct_mapSet: "distinct (map fst m) \<Longrightarrow> distinct (map fst (mapSet k v m))"
  unfolding mapSet_def by (simp add: distinct_update)

lemma dep_step:
  "dep_inv nodes s \<Longrightarrow>
   executeNodeWithDependencies depth env nodes edges inputData s nid = Some (Inr s') \<Longrightarrow>
   dep_inv nodes s' \<and> executing s' = executing s \<and> executed s \<subseteq> executed s'
   \<and> (nid \<in> nodeId ` set nodes \<and> nid \<notin> executing s \<longrightarrow> nid \<in> executed s')"
proof (induction depth arbitrary: s nid s')
  case 0
  then show ?case by simp
next
  case (Suc depth)
  show ?case
  proof (cases "nid \<in> executed s \<or> nid \<in> executing s")
    case True
    with Suc.prems show ?thesis by auto
  next
    case False
    define s1 where "s1 = s\<lparr>executing := insert nid (executing s)\<rparr>"
    have inv1: "dep_inv nodes s1"
      using Suc.prems(1) False by (auto simp: dep_inv_def s1_def)
    show ?thesis
    proof (cases "findNode nodes nid")
      case None
      with Suc.prems(2) False have "s' = s1\<lparr>executing := executing s1 - {nid}\<rparr>"
        by (simp add: s1_def)
      then have "s' = s" using False by (simp add: s1_def)
      with Suc.prems(1) None show ?thesis by (simp add: findNode_None)
    next
      case (Some node)
      then have node: "node \<in> set nodes" "nodeId node = nid"
        using findNode_Some by blast+
      let ?deps = "filter (\<lambda>edge. target edge = nid) edges"
      let ?step = "\<lambda>st dep. executeNodeWithDependencies depth env nodes edges inputData st (source dep)"
      have unfold: "executeNodeWithDependencies (Suc depth) env nodes edges inputData s nid
          = (case forEach ?step ?deps s1 of
               None \<Rightarrow> None
             | Some (Inl err) \<Rightarrow> Some (Inl err)
             | Some (Inr s2) \<Rightarrow>
                 (case executeNode env node (results s2) inputData edges of
                    Inl err \<Rightarrow> Some (Inl err)
                  | Inr nodeResult \<Rightarrow>
                      Some (Inr (s2\<lparr>results := mapSet (nodeId node) nodeResult (results s2),
                                      executed := insert nid (executed s2),
                                      executing := executing s2 - {nid},
                                      calls := calls s2 @ [(nodeId node, results s2)]\<rparr>))))"
        using False Some by (simp add: s1_def Let_def)
      from Suc.prems(2) obtain s2 where loop: "forEach ?step ?deps s1 = Some (Inr s2)"
        unfolding unfold by (auto split: option.splits sum.splits)
      from Suc.prems(2) obtain nodeResult where
        run: "executeNode env node (results s2) inputData edges = Inr nodeResult"
        unfolding unfold loop by (auto split: sum.splits)
      from Suc.prems(2) have s': "s' = s2\<lparr>results := mapSet (nodeId node) nodeResult (results s2),
                          executed := insert nid (executed s2),
                          executing := executing s2 - {nid},
                          calls := calls s2 @ [(nodeId node, results s2)]\<rparr>"
        unfolding unfold loop by (simp add: run)
      let ?I = "\<lambda>st. dep_inv nodes st \<and> executing st = executing s1 \<and> executed s1 \<subseteq> executed st"
      have "?I s2"
      proof (rule forEach_inv [where I = ?I, OF loop])
        show "?I s1" using inv1 by simp
      next
        fix st x st'
        assume "?I st" and "?step st x = Some (Inr st')"
        then show "?I st'"
          using Suc.IH [of st "source x" st'] by blast
      qed
      then have inv2: "dep_inv nodes s2" and ex2: "executing s2 = executing s1"
        and mono2: "executed s1 \<subseteq> executed s2" by simp_all
      have notin: "nid \<notin> executed s2"
        using inv2 ex2 by (auto simp: dep_inv_def s1_def)
      have "dep_inv nodes s'"
        using inv2 notin node ex2 False
        unfolding dep_inv_def s' s1_def
        by (simp add: keys_mapSet distinct_mapSet) blast
      moreover have "executing s' = executing s"
        using ex2 False by (auto simp: s' s1_def)
      moreover have "executed s \<subseteq> executed s'"
        using mono2 by (auto simp: s' s1_def)
      moreover have "nid \<in> executed s'" by (simp add: s')
      ultimately show ?thesis by simp
    qed
  qed
qed

lemma dep_unfold:
  assumes "nid \<notin> executed s" "nid \<notin> executing s" "findNode nodes nid = Some node"
  shows "executeNodeWithDependencies (Suc depth) env nodes edges inputData s nid
          = (case forEach (\<lambda>st dep. executeNodeWithDependencies depth env nodes edges inputData st (source dep))
                    (filter (\<lambda>edge. target edge = nid) edges)
                    (s\<lparr>executing := insert nid (executing s)\<rparr>) of
               None \<Rightarrow> None
             | Some (Inl err) \<Rightarrow> Some (Inl err)
             | Some (Inr s2) \<Rightarrow>
                 (case executeNode env node (results s2) inputData edges of
                    Inl err \<Rightarrow> Some (Inl err)
                  | Inr nodeResult \<Rightarrow>
                      Some (Inr (s2\<lparr>results := mapSet (nodeId node) nodeResult (results s2),
                                      executed := insert nid (executed s2),
                                      executing := executing s2 - {nid},
                                      calls := calls s2 @ [(nodeId node, results s2)]\<rparr>))))"
  using assms by (simp add: Let_def)

lemma dep_returns:
  "dep_inv nodes s \<Longrightarrow> card (nodeId ` set nodes - executing s) < depth \<Longrightarrow>
   executeNodeWithDependencies depth env nodes edges inputData s nid \<noteq> None"
proof (induction depth arbitrary: s nid)
  case 0
  then show ?case by simp
next
  case (Suc depth)
  show ?case
  proof (cases "nid \<in> executed s \<or> nid \<in> executing s")
    case True
    then show ?thesis by auto
  next
    case False
    show ?thesis
    proof (cases "findNode nodes nid")
      case None
      with False show ?thesis by (simp add: Let_def)
    next
      case (Some node)
      define s1 where "s1 = s\<lparr>executing := insert nid (executing s)\<rparr>"
      have inv1: "dep_inv nodes s1"
        using Suc.prems(1) False by (auto simp: dep_inv_def s1_def)
      have nid: "nid \<in> nodeId ` set nodes - executing s"
        using Some False findNode_Some by fastforce
      have "nodeId ` set nodes - executing s1 = (nodeId ` set nodes - executing s) - {nid}"
        by (auto simp: s1_def)
      then have "card (nodeId ` set nodes - executing s1) = card (nodeId ` set nodes - executing s) - 1"
        using nid by simp
      moreover have "0 < card (nodeId ` set nodes - executing s)"
        using nid by (metis card_gt_0_iff empty_iff finite_Diff finite_imageI finite_set)
      ultimately have small: "card (nodeId ` set nodes - executing s1) < depth"
        using Suc.prems(2) by linarith
      let ?step = "\<lambda>st dep. executeNodeWithDependencies depth env nodes edges inputData st (source dep)"
      let ?I = "\<lambda>st. dep_inv nodes st \<and> executing st = executing s1"
      have "forEach ?step (filter (\<lambda>edge. target edge = nid) edges) s1 \<noteq> None"
      proof (rule forEach_returns [where I = ?I])
        show "?I s1" using inv1 by simp
      next
        fix st x assume "?I st"
        then show "?step st x \<noteq> None" using Suc.IH [of st "source x"] small by simp
      next
        fix st x st' assume "?I st" "?step st x = Some (Inr st')"
        then show "?I st'" using dep_step [of nodes st depth env edges inputData "source x" st'] by simp
      qed
      moreover from False have "nid \<notin> executed s" "nid \<notin> executing s" by simp_all
      note dep_unfold [OF this Some, of depth env edges inputData]
      ultimately show ?thesis
        unfolding s1_def by (auto split: option.splits sum.splits)
    qed
  qed
qed

lemma forEach_failure:
  "forEach step xs s = Some (Inl err) \<Longrightarrow> \<exists>x\<in>set xs. \<exists>st. step st x = Some (Inl err)"
proof (induction xs arbitrary: s)
  case Nil
  then show ?case by simp
next
  case (Cons x xs)
  show ?case
  proof (cases "step s x")
    case None
    with Cons.prems show ?thesis by simp
  next
    case (Some r)
    show ?thesis
    proof (cases r)
      case (Inl e)
      with Some Cons.prems have "step s x = Some (Inl err)" by simp
      then show ?thesis by auto
    next
      case (Inr s1)
      with Some Cons.prems have "forEach step xs s1 = Some (Inl err)" by simp
      then have "\<exists>y\<in>set xs. \<exists>st. step st y = Some (Inl err)" by (rule Cons.IH)
      then show ?thesis by auto
    qed
  qed
qed

lemma dep_failure:
  "executeNodeWithDependencies depth env nodes edges inputData s nid = Some (Inl err) \<Longrightarrow>
   \<exists>node\<in>set nodes. \<exists>prev. executeNode env node prev inputData edges = Inl err"
proof (induction depth arbitrary: s nid)
  case 0
  then show ?case by simp
next
  case (Suc depth)
  from Suc.prems have notdone: "nid \<notin> executed s" "nid \<notin> executing s"
    by (auto split: if_splits)
  from Suc.prems notdone obtain node where node: "findNode nodes nid = Some node"
    by (cases "findNode nodes nid") (auto simp: Let_def)
  let ?step = "\<lambda>st dep. executeNodeWithDependencies depth env nodes edges inputData st (source dep)"
  let ?loop = "forEach ?step (filter (\<lambda>edge. target edge = nid) edges) (s\<lparr>executing := insert nid (executing s)\<rparr>)"
  note unf = dep_unfold [OF notdone node, of depth env edges inputData]
  show ?case
  proof (cases ?loop)
    case None
    with Suc.prems unf show ?thesis by simp
  next
    case (Some r)
    show ?thesis
    proof (cases r)
      case (Inl e)
      with Some Suc.prems unf have "?loop = Some (Inl err)" by simp
      from forEach_failure [OF this] obtain x :: EdgeData and st where "?step st x = Some (Inl err)"
        by blast
      then show ?thesis by (rule Suc.IH)
    next
      case (Inr s2)
      with Some Suc.prems unf have "executeNode env node (results s2) inputData edges = Inl err"
        by (auto split: sum.splits)
      moreover have "node \<in> set nodes" using node findNode_Some by blast
      ultimately show ?thesis by blast
    qed
  qed
qed

lemma dep_order_step:
  assumes acyc: "acyclic (edgeRel edges)"
  shows "dep_inv nodes s \<Longrightarrow> dep_ord nodes edges s \<Longrightarrow>
   \<forall>x\<in>executing s. (nid, x) \<in> (edgeRel edges)\<^sup>* \<Longrightarrow>
   executeNodeWithDependencies depth env nodes edges inputData s nid = Some (Inr s') \<Longrightarrow>
   dep_ord nodes edges s'"
proof (induction depth arbitrary: s nid s')
  case 0
  then show ?case by simp
next
  case (Suc depth)
  show ?case
  proof (cases "nid \<in> executed s \<or> nid \<in> executing s")
    case True
    with Suc.prems show ?thesis by auto
  next
    case False
    then have notdone: "nid \<notin> executed s" "nid \<notin> executing s" by simp_all
    show ?thesis
    proof (cases "findNode nodes nid")
      case None
      with Suc.prems(4) False have "calls s' = calls s" by (auto simp: Let_def)
      with Suc.prems(2) show ?thesis by (simp add: dep_ord_def)
    next
      case (Some node)
      then have node: "node \<in> set nodes" "nodeId node = nid"
        using findNode_Some by blast+
      define s1 where "s1 = s\<lparr>executing := insert nid (executing s)\<rparr>"
      have inv1: "dep_inv nodes s1"
        using Suc.prems(1) False by (auto simp: dep_inv_def s1_def)
      have ord1: "dep_ord nodes edges s1"
        using Suc.prems(2) by (simp add: dep_ord_def s1_def)
      let ?deps = "filter (\<lambda>edge. target edge = nid) edges"
      let ?step = "\<lambda>st dep. executeNodeWithDependencies depth env nodes edges inputData st (source dep)"
      note unf = dep_unfold [OF notdone Some, of depth env edges inputData, folded s1_def]
      from Suc.prems(4) obtain s2 where loop: "forEach ?step ?deps s1 = Some (Inr s2)"
        unfolding unf by (auto split: option.splits sum.splits)
      from Suc.prems(4) obtain nodeResult where
        run: "executeNode env node (results s2) inputData edges = Inr nodeResult"
        unfolding unf loop by (auto split: sum.splits)
      from Suc.prems(4) have s': "s' = s2\<lparr>results := mapSet (nodeId node) nodeResult (results s2),
                          executed := insert nid (executed s2),
                          executing := executing s2 - {nid},
                          calls := calls s2 @ [(nodeId node, results s2)]\<rparr>"
        unfolding unf loop by (simp add: run)
      let ?I = "\<lambda>st. dep_inv nodes st \<and> executing st = executing s1 \<and> dep_ord nodes edges st"
      let ?Q = "\<lambda>dep st. source dep \<in> nodeId ` set nodes \<longrightarrow> source dep \<in> executed st"
      have stepI: "?I st' \<and> ?Q x st'"
        if x: "x \<in> set ?deps" and I: "?I st" and st: "?step st x = Some (Inr st')" for st x st'
      proof -
        from x have edge: "(source x, nid) \<in> edgeRel edges"
          by (auto simp: edgeRel_def)
        note d = dep_step [of nodes st depth env edges inputData "source x" st']
        have reach: "\<forall>y\<in>executing st. (source x, y) \<in> (edgeRel edges)\<^sup>*"
        proof
          fix y assume "y \<in> executing st"
          with I have "y = nid \<or> y \<in> executing s" by (simp add: s1_def)
          then show "(source x, y) \<in> (edgeRel edges)\<^sup>*"
          proof
            assume "y = nid" with edge show ?thesis by auto
          next
            assume "y \<in> executing s"
            with Suc.prems(3) have "(nid, y) \<in> (edgeRel edges)\<^sup>*" by blast
            with edge show ?thesis by (meson converse_rtrancl_into_rtrancl)
          qed
        qed
        have ord': "dep_ord nodes edges st'"
          using Suc.IH [of st "source x" st'] I reach st by blast
        have notstack: "source x \<notin> executing st"
        proof
          assume "source x \<in> executing st"
          with I have "source x = nid \<or> source x \<in> executing s" by (simp add: s1_def)
          then have "(nid, source x) \<in> (edgeRel edges)\<^sup>*"
            using Suc.prems(3) by auto
          with edge have "(source x, source x) \<in> (edgeRel edges)\<^sup>+"
            by (meson rtrancl_into_trancl2)
          with acyc show False by (simp add: acyclic_def)
        qed
        from d I st notstack ord' show ?thesis by auto
      qed
      have keepQ: "?Q z st'"
        if "?I st" and "?Q z st" and "?step st y = Some (Inr st')" for st z y st'
        using dep_step [of nodes st depth env edges inputData "source y" st'] that by auto
      have I2: "?I s2"
      proof (rule forEach_inv [where I = ?I, OF loop])
        show "?I s1" using inv1 ord1 by simp
      next
        fix st x st' assume "x \<in> set ?deps" "?I st" "?step st x = Some (Inr st')"
        then show "?I st'" using stepI [of x st st'] by blast
      qed
      have Q2: "?Q x s2" if x: "x \<in> set ?deps" for x
      proof (rule forEach_each [where I = ?I and Q = ?Q, OF loop _ _ _ x])
        show "?I s1" using inv1 ord1 by simp
      next
        fix st y st' assume "y \<in> set ?deps" "?I st" "?step st y = Some (Inr st')"
        then show "?I st' \<and> ?Q y st'" by (rule stepI)
      next
        fix st z y st' assume "y \<in> set ?deps" "?I st" "?Q z st" "?step st y = Some (Inr st')"
        then show "?Q z st'" using keepQ [of st z y st'] by blast
      qed
      from I2 have inv2: "dep_inv nodes s2" and ord2: "dep_ord nodes edges s2" by simp_all
      have new: "\<forall>e \<in> set edges. target e = nid \<and> source e \<in> nodeId ` set nodes
                   \<longrightarrow> source e \<in> fst ` set (results s2)"
      proof (intro ballI impI)
        fix e assume e: "e \<in> set edges" "target e = nid \<and> source e \<in> nodeId ` set nodes"
        then have "e \<in> set ?deps" by simp
        from Q2 [OF this] e have "source e \<in> executed s2" by simp
        with inv2 show "source e \<in> fst ` set (results s2)" by (simp add: dep_inv_def)
      qed
      show ?thesis
        using ord2 new node unfolding dep_ord_def s' by auto
    qed
  qed
qed

lemma dep_init: "dep_inv nodes \<lparr>results = [], executed = {}, executing = {}, calls = []\<rparr>"
  by (simp add: dep_inv_def)

lemma dep_toplevel:
  assumes run: "executeDependencyAwareWorkflow env nodes edges [] inputData = Some (Inr s)"
  shows "dep_inv nodes s \<and> executing s = {} \<and> nodeId ` set nodes \<subseteq> executed s"
proof -
  let ?step = "executeNodeWithDependencies (Suc (length nodes)) env nodes edges inputData"
  let ?init = "\<lparr>results = [], executed = {}, executing = {}, calls = []\<rparr>"
  let ?I = "\<lambda>st. dep_inv nodes st \<and> executing st = {}"
  let ?Q = "\<lambda>nid st. nid \<in> executed st"
  from run have loop: "forEach ?step (map nodeId nodes) ?init = Some (Inr s)"
    by (simp add: executeDependencyAwareWorkflow_def)
  have stepI: "?I st' \<and> ?Q x st'"
    if "x \<in> set (map nodeId nodes)" "?I st" "?step st x = Some (Inr st')" for st x st'
    using dep_step [of nodes st "Suc (length nodes)" env edges inputData x st'] that by auto
  have keepQ: "?Q z st'" if "?I st" "?Q z st" "?step st y = Some (Inr st')" for st z y st'
    using dep_step [of nodes st "Suc (length nodes)" env edges inputData y st'] that by auto
  have "?I s"
  proof (rule forEach_inv [where I = ?I, OF loop])
    show "?I ?init" by (simp add: dep_init)
  next
    fix st x st' assume "x \<in> set (map nodeId nodes)" "?I st" "?step st x = Some (Inr st')"
    then show "?I st'" using stepI [of x st st'] by blast
  qed
  moreover have "x \<in> executed s" if x: "x \<in> set (map nodeId nodes)" for x
  proof (rule forEach_each [where I = ?I and Q = ?Q, OF loop _ _ _ x])
    show "?I ?init" by (simp add: dep_init)
  next
    fix st y st' assume "y \<in> set (map nodeId nodes)" "?I st" "?step st y = Some (Inr st')"
    then show "?I st' \<and> ?Q y st'" by (rule stepI)
  next
    fix st z y st' assume "y \<in> set (map nodeId nodes)" "?I st" "?Q z st" "?step st y = Some (Inr st')"
    then show "?Q z st'" using keepQ [of st z y st'] by blast
  qed
  ultimately show ?thesis by auto
qed

lemma dep_toplevel_order:
  assumes run: "executeDependencyAwareWorkflow env nodes edges [] inputData = Some (Inr s)"
    and acyc: "acyclic (edgeRel edges)"
  shows "dep_ord nodes edges s"
proof -
  let ?step = "executeNodeWithDependencies (Suc (length nodes)) env nodes edges inputData"
  let ?init = "\<lparr>results = [], executed = {}, executing = {}, calls = []\<rparr>"
  let ?I = "\<lambda>st. dep_inv nodes st \<and> executing st = {} \<and> dep_ord nodes edges st"
  from run have loop: "forEach ?step (map nodeId nodes) ?init = Some (Inr s)"
    by (simp add: executeDependencyAwareWorkflow_def)
  have "?I s"
  proof (rule forEach_inv [where I = ?I, OF loop])
    show "?I ?init" by (simp add: dep_init dep_ord_def)
  next
    fix st x st' assume a: "?I st" "?step st x = Some (Inr st')"
    then have "dep_ord nodes edges st'"
      using dep_order_step [OF acyc, of nodes st x "Suc (length nodes)" env inputData st'] by simp
    with a show "?I st'"
      using dep_step [of nodes st "Suc (length nodes)" env edges inputData x st'] by simp
  qed
  then show ?thesis by simp
qed

lemma dep_toplevel_returns:
  "executeDependencyAwareWorkflow env nodes edges [] inputData \<noteq> None"
proof -
  let ?step = "executeNodeWithDependencies (Suc (length nodes)) env nodes edges inputData"
  let ?I = "\<lambda>st. dep_inv nodes st \<and> executing st = {}"
  have "card (nodeId ` set nodes) \<le> length nodes"
    by (metis card_image_le card_length finite_set le_trans)
  then have small: "card (nodeId ` set nodes - {}) < Suc (length nodes)" by simp
  have "forEach ?step (map nodeId nodes) \<lparr>results = [], executed = {}, executing = {}, calls = []\<rparr> \<noteq> None"
  proof (rule forEach_returns [where I = ?I])
    show "?I \<lparr>results = [], executed = {}, executing = {}, calls = []\<rparr>" by (simp add: dep_init)
  next
    fix st x assume "?I st"
    then show "?step st x \<noteq> None"
      using dep_returns [of nodes st "Suc (length nodes)" env edges inputData x] small by simp
  next
    fix st x st' assume "?I st" "?step st x = Some (Inr st')"
    then show "?I st'"
      using dep_step [of nodes st "Suc (length nodes)" env edges inputData x st'] by simp
  qed
  then show ?thesis by (simp add: executeDependencyAwareWorkflow_def)
qed

lemma dep_toplevel_failure:
  assumes "executeDependencyAwareWorkflow env nodes edges [] inputData = Some (Inl err)"
  shows "\<exists>node\<in>set nodes. \<exists>prev. executeNode env node prev inputData edges = Inl err"
proof -
  from assms forEach_failure
  obtain x st where "executeNodeWithDependencies (Suc (length nodes)) env nodes edges inputData st x
      = Some (Inl err)"
    unfolding executeDependencyAwareWorkflow_def by fast
  then show ?thesis by (rule dep_failure)
qed

text \<open>
  C1, as amended. The dependency-aware strategy always returns. When it fails, some node
  action has thrown. When it completes, every node id of the graph was executed exactly
  once and is a key of the results map exactly once. When the edges are moreover
  acyclic, every call of a node's action took place after the results of all nodes with
  an edge into that node had been recorded. A graph without logic node is run with this
  strategy.
\<close>

theorem dependency_aware_execution:
  "executeDependencyAwareWorkflow env nodes edges [] inputData \<noteq> None
   \<and> (executeDependencyAwareWorkflow env nodes edges [] inputData = Some (Inl err) \<longrightarrow>
        (\<exists>node\<in>set nodes. \<exists>prev. executeNode env node prev inputData edges = Inl err))
   \<and> (executeDependencyAwareWorkflow env nodes edges [] inputData = Some (Inr s) \<longrightarrow>
        distinct (map fst (calls s)) \<and> set (map fst (calls s)) = nodeId ` set nodes
        \<and> distinct (map fst (results s)) \<and> fst ` set (results s) = nodeId ` set nodes
        \<and> (acyclic (edgeRel edges) \<longrightarrow>
             (\<forall>(v, prev) \<in> set (calls s). \<forall>e \<in> set edges.
                target e = v \<and> source e \<in> nodeId ` set nodes \<longrightarrow> source e \<in> fst ` set prev)))
   \<and> (\<not> list_ex (\<lambda>node. nodeType node = ''logic'') nodes \<longrightarrow>
        executeCurrentWorkflow env nodes edges inputData
          = (case executeDependencyAwareWorkflow env nodes edges [] inputData of
               None \<Rightarrow> None
             | Some (Inl e) \<Rightarrow> Some (runFailed e)
             | Some (Inr st) \<Rightarrow> Some (runSucceeded (results st))))"
proof (intro conjI impI)
  show "executeDependencyAwareWorkflow env nodes edges [] inputData \<noteq> None"
    by (rule dep_toplevel_returns)
next
  assume "\<not> list_ex (\<lambda>node. nodeType node = ''logic'') nodes"
  then show "executeCurrentWorkflow env nodes edges inputData
          = (case executeDependencyAwareWorkflow env nodes edges [] inputData of
               None \<Rightarrow> None
             | Some (Inl e) \<Rightarrow> Some (runFailed e)
             | Some (Inr st) \<Rightarrow> Some (runSucceeded (results st)))"
    by (simp add: executeCurrentWorkflow_def)
next
  assume "executeDependencyAwareWorkflow env nodes edges [] inputData = Some (Inl err)"
  then show "\<exists>node\<in>set nodes. \<exists>prev. executeNode env node prev inputData edges = Inl err"
    by (rule dep_toplevel_failure)
next
  assume run: "executeDependencyAwareWorkflow env nodes edges [] inputData = Some (Inr s)"
  note top = dep_toplevel [OF run]
  then have ex: "executed s = nodeId ` set nodes" by (auto simp: dep_inv_def)
  from top show "distinct (map fst (calls s))" by (simp add: dep_inv_def)
  from top ex show "set (map fst (calls s)) = nodeId ` set nodes" by (simp add: dep_inv_def)
  from top show "distinct (map fst (results s))" by (simp add: dep_inv_def)
  from top ex show "fst ` set (results s) = nodeId ` set nodes" by (simp add: dep_inv_def)
  assume "acyclic (edgeRel edges)"
  with run have "dep_ord nodes edges s" by (rule dep_toplevel_order)
  then show "\<forall>(v, prev) \<in> set (calls s). \<forall>e \<in> set edges.
                target e = v \<and> source e \<in> nodeId ` set nodes \<longrightarrow> source e \<in> fst ` set prev"
    by (simp add: dep_ord_def)
qed

lemma executeNode_input:
  "nodeType node = ''input'' \<Longrightarrow> \<exists>r. executeNode env node prev inputData edges = Inr r"
  by (simp add: executeNode_def Let_def)

lemma executeNode_output:
  "nodeType node = ''output'' \<Longrightarrow> \<exists>r. executeNode env node prev inputData edges = Inr r"
  by (simp add: executeNode_def Let_def)

text \<open>
  The claim as stated fails on a cycle: a node that is met again while it is being
  executed is skipped, so with the edges \<open>a\<close> to \<open>b\<close> and \<open>b\<close> to \<open>a\<close> the node
  \<open>b\<close> is executed first, on an empty results map, before its predecessor \<open>a\<close>.
\<close>

theorem dependency_aware_execution_counterexample:
  "(case executeDependencyAwareWorkflow testEnv
           [mkNode ''a'' ''input'', mkNode ''b'' ''output'']
           [mkEdge ''a'' ''b'', mkEdge ''b'' ''a''] [] (JObj []) of
      Some (Inr s) \<Rightarrow> map (\<lambda>c. (fst c, map fst (snd c))) (calls s) = [(''b'', []), (''a'', [''b''])]
    | _ \<Rightarrow> False)
   \<and> mkEdge ''a'' ''b'' \<in> set [mkEdge ''a'' ''b'', mkEdge ''b'' ''a'']
   \<and> source (mkEdge ''a'' ''b'') = ''a'' \<and> target (mkEdge ''a'' ''b'') = ''b''"
  by (simp add: executeDependencyAwareWorkflow_def mkNode_def mkEdge_def findNode_def
      executeNode_def Let_def mapSet_def)

lemma acyclic_rank:
  assumes "\<forall>(a, b) \<in> r. f a < (f b :: nat)"
  shows "acyclic r"
proof -
  have "r \<subseteq> measure f" using assms by auto
  moreover have "acyclic (measure f)" by (simp add: wf_acyclic)
  ultimately show ?thesis by (rule acyclic_subset [rotated])
qed

lemma forEach_weak_cong: "xs = xs' \<Longrightarrow> s = s' \<Longrightarrow> forEach step xs s = forEach step xs' s'"
  by simp

theorem dependency_aware_execution_witness:
  "acyclic (edgeRel [mkEdge ''a'' ''c'', mkEdge ''b'' ''c''])
   \<and> (\<exists>s. executeDependencyAwareWorkflow testEnv
            [mkNode ''c'' ''output'', mkNode ''a'' ''input'', mkNode ''b'' ''input'']
            [mkEdge ''a'' ''c'', mkEdge ''b'' ''c''] [] (JObj []) = Some (Inr s)
          \<and> map fst (calls s) = [''a'', ''b'', ''c'']
          \<and> distinct (map fst (results s))
          \<and> fst ` set (results s) = {''a'', ''b'', ''c''}
          \<and> (\<forall>(v, prev) \<in> set (calls s). \<forall>e \<in> set [mkEdge ''a'' ''c'', mkEdge ''b'' ''c''].
                target e = v \<and> source e \<in> {''a'', ''b'', ''c''} \<longrightarrow> source e \<in> fst ` set prev))"
proof -
  let ?nodes = "[mkNode ''c'' ''output'', mkNode ''a'' ''input'', mkNode ''b'' ''input'']"
  let ?edges = "[mkEdge ''a'' ''c'', mkEdge ''b'' ''c'']"
  let ?run = "executeDependencyAwareWorkflow testEnv ?nodes ?edges [] (JObj [])"
  have acyc: "acyclic (edgeRel ?edges)"
    by (rule acyclic_rank [where f = "\<lambda>x. if x = ''c'' then 1 else 0"])
       (simp add: edgeRel_def mkEdge_def)
  have "case ?run of Some (Inr s) \<Rightarrow> map fst (calls s) = [''a'', ''b'', ''c''] | _ \<Rightarrow> False"
    by (simp add: executeDependencyAwareWorkflow_def mkNode_def mkEdge_def findNode_def
        executeNode_def Let_def mapSet_def cong: forEach_weak_cong)
  then obtain s where run: "?run = Some (Inr s)" and order: "map fst (calls s) = [''a'', ''b'', ''c'']"
    by (auto split: option.splits sum.splits)
  have ids: "nodeId ` set ?nodes = {''a'', ''b'', ''c''}"
    by (auto simp: mkNode_def)
  note spec = dependency_aware_execution [of testEnv ?nodes ?edges "JObj []" TypeError s]
  note props = spec [THEN conjunct2, THEN conjunct2, THEN conjunct1, THEN mp, OF run]
  note p1 = props [THEN conjunct2, THEN conjunct2, THEN conjunct1]
  note p2 = props [THEN conjunct2, THEN conjunct2, THEN conjunct2, THEN conjunct1]
  note p3 = props [THEN conjunct2, THEN conjunct2, THEN conjunct2, THEN conjunct2]
  from p3 acyc have p4: "\<forall>(v, prev) \<in> set (calls s). \<forall>e \<in> set ?edges.
                target e = v \<and> source e \<in> nodeId ` set ?nodes \<longrightarrow> source e \<in> fst ` set prev"
    by (rule mp)
  show ?thesis
  proof (intro conjI exI [of _ s])
    show "acyclic (edgeRel ?edges)" by (rule acyc)
    show "?run = Some (Inr s)" by (rule run)
    show "map fst (calls s) = [''a'', ''b'', ''c'']" by (rule order)
    show "distinct (map fst (results s))" by (rule p1)
    show "fst ` set (results s) = {''a'', ''b'', ''c''}" using p2 unfolding ids .
    show "\<forall>(v, prev) \<in> set (calls s). \<forall>e \<in> set ?edges.
            target e = v \<and> source e \<in> {''a'', ''b'', ''c''} \<longrightarrow> source e \<in> fst ` set prev"
      using p4 unfolding ids .
  qed
qed




















lemma logicNode_sel [simp]:
  "nodeId (logicNode i c m op) = i" "nodeType (logicNode i c m op) = ''logic''"
  by (simp_all add: logicNode_def)



end
